theory Spec2Isabelle
  imports Main "HOL-Library.Word"
begin

section \<open>Strings of the host language\<close>

text \<open>
  A JavaScript string is a sequence of 16-bit code units. String literals of the source
  are all ASCII; \<open>utf16\<close> turns an ASCII literal into its code units.
\<close>

type_synonym js_string = "16 word list"

definition utf16 :: "string \<Rightarrow> js_string" where
  "utf16 cs = map (\<lambda>c. word_of_nat (of_char c)) cs"

text \<open>
  \<open>String.prototype.trim\<close> removes the code units of the ECMAScript productions
  WhiteSpace and LineTerminator from both ends.
\<close>

definition isWhiteSpace :: "16 word \<Rightarrow> bool" where
  "isWhiteSpace c =
     (c = 0x0009 \<or> c = 0x000A \<or> c = 0x000B \<or> c = 0x000C \<or> c = 0x000D \<or> c = 0x0020 \<or>
      c = 0x00A0 \<or> c = 0x1680 \<or> (0x2000 \<le> c \<and> c \<le> 0x200A) \<or> c = 0x2028 \<or>
      c = 0x2029 \<or> c = 0x202F \<or> c = 0x205F \<or> c = 0x3000 \<or> c = 0xFEFF)"

definition trim :: "js_string \<Rightarrow> js_string" where
  "trim s = rev (dropWhile isWhiteSpace (rev (dropWhile isWhiteSpace s)))"

section \<open>types.ts and the state of the App component\<close>

datatype ApiState = IDLE | LOADING | SUCCESS | ERROR

datatype Page = promptInput | imageDisplay

text \<open>One field for each \<open>useState\<close> of \<open>App\<close>, with its initial value below.\<close>

record App =
  transcript :: js_string
  generatedPrompt :: js_string
  imageUrls :: "js_string list option"
  selectedImageUrls :: "js_string list"
  promptApiState :: ApiState
  imageApiState :: ApiState
  error :: "js_string option"
  currentPage :: Page

definition initialApp :: App where
  "initialApp =
     \<lparr>transcript = [], generatedPrompt = [], imageUrls = None, selectedImageUrls = [],
      promptApiState = IDLE, imageApiState = IDLE, error = None, currentPage = promptInput\<rparr>"

section \<open>services/geminiService: the two clients\<close>

text \<open>
  The hosted model is the environment. One call of \<open>ai.models.generateContent\<close> either
  rejects, with the message the \<open>catch\<close> clause reads from the thrown value
  (\<open>error.message\<close>, or \<open>String(error)\<close>), or fulfils with a response.
\<close>

datatype 'r outcome = Rejected js_string | Fulfilled 'r

text \<open>Of a text response the client reads \<open>response.text\<close>, which may be undefined.\<close>

type_synonym text_response = "js_string option"

text \<open>
  Of an image response the client reads the list
  \<open>response.candidates?.[0]?.content?.parts || []\<close>; of each part its optional
  \<open>inlineData\<close>, with the payload \<open>data\<close> and the optional \<open>mimeType\<close>.
\<close>

record blob =
  data :: js_string
  mimeType :: "js_string option"

record part =
  inlineData :: "blob option"

type_synonym image_response = "part list"

definition generateColoringBookPrompt ::
    "(js_string \<Rightarrow> text_response outcome) \<Rightarrow> js_string \<Rightarrow> js_string + js_string" where
  "generateColoringBookPrompt ai t =
     (case ai t of
        Rejected m \<Rightarrow> Inl (utf16 ''Failed to generate prompt: '' @ m)
      | Fulfilled response \<Rightarrow>
          (case map_option trim response of
             None \<Rightarrow>
               Inl (utf16 ''Failed to generate prompt: '' @
                    utf16 ''Gemini did not return a valid prompt text.'')
           | Some txt \<Rightarrow>
               if txt = []
               then Inl (utf16 ''Failed to generate prompt: '' @
                         utf16 ''Gemini did not return a valid prompt text.'')
               else Inr txt))"

fun extractImageUrl :: "image_response \<Rightarrow> js_string + js_string" where
  "extractImageUrl [] =
     Inl (utf16 ''Gemini did not return an image part with inlineData and mimeType.'')"
| "extractImageUrl (p # ps) =
     (case inlineData p of
        None \<Rightarrow> extractImageUrl ps
      | Some b \<Rightarrow>
          (case mimeType b of
             None \<Rightarrow> extractImageUrl ps
           | Some mt \<Rightarrow>
               if mt = [] then extractImageUrl ps
               else Inr (utf16 ''data:'' @ mt @ utf16 '';base64,'' @ data b)))"

definition prompt1 :: "js_string \<Rightarrow> js_string" where
  "prompt1 prompt = prompt @ utf16 '', classic comic book style, bold outlines''"

definition prompt2 :: "js_string \<Rightarrow> js_string" where
  "prompt2 prompt = prompt @ utf16 '', playful doodle art style, slightly simplified lines''"

text \<open>
  The second request is issued only when the first has fulfilled and an image was
  extracted from it; every failure leaves through the one \<open>catch\<close> clause.
\<close>

definition generateColoringBookImage ::
    "(js_string \<Rightarrow> image_response outcome) \<Rightarrow> js_string \<Rightarrow> js_string + js_string list" where
  "generateColoringBookImage ai prompt =
     (case ai (prompt1 prompt) of
        Rejected m \<Rightarrow> Inl (utf16 ''Failed to generate image: '' @ m)
      | Fulfilled response1 \<Rightarrow>
          (case extractImageUrl response1 of
             Inl m \<Rightarrow> Inl (utf16 ''Failed to generate image: '' @ m)
           | Inr url1 \<Rightarrow>
               (case ai (prompt2 prompt) of
                  Rejected m \<Rightarrow> Inl (utf16 ''Failed to generate image: '' @ m)
                | Fulfilled response2 \<Rightarrow>
                    (case extractImageUrl response2 of
                       Inl m \<Rightarrow> Inl (utf16 ''Failed to generate image: '' @ m)
                     | Inr url2 \<Rightarrow> Inr [url1, url2]))))"

section \<open>App.tsx: the handlers\<close>

text \<open>
  A handler that awaits a client is split at the \<open>await\<close>: the part before it returns
  the new state and the calls it has started, the part after it (\<open>_settled\<close>) is run
  when the call settles, on the state of that moment. All setters of the source but the
  one of \<open>handleToggleImageSelection\<close> store values that do not depend on the state.
\<close>

datatype call = PromptCall js_string | ImageCall js_string

definition handleToggleImageSelection :: "js_string \<Rightarrow> App \<Rightarrow> App" where
  "handleToggleImageSelection url s =
     s\<lparr>selectedImageUrls :=
         (if url \<in> set (selectedImageUrls s)
          then filter (\<lambda>selectedUrl. selectedUrl \<noteq> url) (selectedImageUrls s)
          else selectedImageUrls s @ [url])\<rparr>"

definition handleGeneratePrompt :: "App \<Rightarrow> App \<times> call list" where
  "handleGeneratePrompt s =
     (let s1 = s\<lparr>error := None, promptApiState := LOADING, imageApiState := IDLE,
                  imageUrls := None, selectedImageUrls := []\<rparr>
      in if trim (transcript s) = []
         then (s1\<lparr>error := Some (utf16 ''Please enter an idea to generate a prompt.''),
                  promptApiState := ERROR\<rparr>, [])
         else (s1, [PromptCall (transcript s)]))"

definition handleGeneratePrompt_settled :: "js_string + js_string \<Rightarrow> App \<Rightarrow> App" where
  "handleGeneratePrompt_settled r s =
     (case r of
        Inr prompt \<Rightarrow>
          s\<lparr>generatedPrompt := prompt, promptApiState := SUCCESS, currentPage := imageDisplay\<rparr>
      | Inl m \<Rightarrow>
          s\<lparr>error := Some (utf16 ''Failed to generate prompt: '' @ m),
            promptApiState := ERROR, generatedPrompt := []\<rparr>)"

definition handleBackToPromptInput :: "App \<Rightarrow> App" where
  "handleBackToPromptInput s =
     s\<lparr>currentPage := promptInput, imageUrls := None, imageApiState := IDLE,
       selectedImageUrls := []\<rparr>"

definition handleGenerateImage :: "App \<Rightarrow> App \<times> call list" where
  "handleGenerateImage s =
     (if promptApiState s = SUCCESS \<and> generatedPrompt s \<noteq> [] \<and> currentPage s = imageDisplay
      then (s\<lparr>error := None, imageApiState := LOADING, imageUrls := None,
               selectedImageUrls := []\<rparr>,
            [ImageCall (generatedPrompt s)])
      else (s, []))"

definition handleGenerateImage_settled :: "js_string + js_string list \<Rightarrow> App \<Rightarrow> App" where
  "handleGenerateImage_settled r s =
     (case r of
        Inr urls \<Rightarrow> s\<lparr>imageUrls := Some urls, imageApiState := SUCCESS\<rparr>
      | Inl m \<Rightarrow>
          s\<lparr>error := Some (utf16 ''Failed to generate image: '' @ m),
            imageApiState := ERROR, imageUrls := None\<rparr>)"

text \<open>
  The effect of \<open>App\<close> runs \<open>handleGenerateImage\<close> after a render in which one of its
  dependencies \<open>[generatedPrompt, promptApiState, currentPage]\<close> differs from the render
  before (\<open>rendered\<close>). On the first render it runs too, and starts nothing:
  \<open>promptApiState\<close> is \<open>IDLE\<close> then.
\<close>

definition deps :: "App \<Rightarrow> js_string \<times> ApiState \<times> Page" where
  "deps s = (generatedPrompt s, promptApiState s, currentPage s)"

definition useEffect :: "App \<Rightarrow> App \<Rightarrow> App \<times> call list" where
  "useEffect rendered s = (if deps s = deps rendered then (s, []) else handleGenerateImage s)"

section \<open>Events\<close>

text \<open>
  What reaches the component: the user's intents, and the settling of a call that is in
  flight, which carries the argument the call was started with and the environment's
  answers. The updates of one event are batched into one render, after which the effect
  is considered. \<open>handlePrintSelectedImages\<close> reads the selection and calls no setter,
  so printing is not an event here.
\<close>

datatype event =
    EditTranscript js_string
  | SubmitPrompt
  | ToggleSelection js_string
  | GoBack
  | PromptSettled js_string "js_string \<Rightarrow> text_response outcome"
  | ImageSettled js_string "js_string \<Rightarrow> image_response outcome"

fun handler :: "App \<Rightarrow> event \<Rightarrow> App \<times> call list" where
  "handler s (EditTranscript t) = (s\<lparr>transcript := t\<rparr>, [])"
| "handler s SubmitPrompt = handleGeneratePrompt s"
| "handler s (ToggleSelection url) = (handleToggleImageSelection url s, [])"
| "handler s GoBack = (handleBackToPromptInput s, [])"
| "handler s (PromptSettled t ai) =
     (handleGeneratePrompt_settled (generateColoringBookPrompt ai t) s, [])"
| "handler s (ImageSettled p ai) =
     (handleGenerateImage_settled (generateColoringBookImage ai p) s, [])"

definition fire :: "App \<Rightarrow> event \<Rightarrow> App \<times> call list" where
  "fire s ev =
     (case handler s ev of
        (s1, started) \<Rightarrow> (case useEffect s s1 of (s2, started') \<Rightarrow> (s2, started @ started')))"

section \<open>The running application: state, calls in flight, and what the views offer\<close>

record system =
  app :: App
  pending :: "call list"

definition initialSystem :: system where
  "initialSystem = \<lparr>app = initialApp, pending = []\<rparr>"

text \<open>
  \<open>showImages\<close> is the condition of \<open>ImageDisplay\<close> under which the images and their
  click handlers are rendered; the \<open>error\<close> it receives is that of the component only
  when \<open>imageApiState\<close> is \<open>ERROR\<close>, and an empty message is falsy.
\<close>

definition showImages :: "App \<Rightarrow> bool" where
  "showImages s =
     (imageApiState s \<noteq> LOADING \<and>
      \<not> (imageApiState s = ERROR \<and> error s \<noteq> None \<and> error s \<noteq> Some []) \<and>
      (case imageUrls s of None \<Rightarrow> False | Some urls \<Rightarrow> urls \<noteq> []))"

text \<open>
  The views decide which intents can be issued: the submit button of \<open>PromptInput\<close> is
  rendered on the prompt page and disabled while the prompt call is loading or the
  transcript is blank (and while speech is recorded, a state of \<open>PromptInput\<close> that is
  left out here: it only disables more); the back button of \<open>Header\<close> is rendered on the image page; an
  image is clickable when it is shown. The transcript is written by the text area and by
  speech recognition, whose results may arrive at any time. A call settles only while it
  is in flight.
\<close>

fun offered :: "system \<Rightarrow> event \<Rightarrow> bool" where
  "offered sys (EditTranscript t) = True"
| "offered sys SubmitPrompt =
     (currentPage (app sys) = promptInput \<and> promptApiState (app sys) \<noteq> LOADING \<and>
      trim (transcript (app sys)) \<noteq> [])"
| "offered sys (ToggleSelection url) =
     (currentPage (app sys) = imageDisplay \<and> showImages (app sys) \<and>
      (case imageUrls (app sys) of None \<Rightarrow> False | Some urls \<Rightarrow> url \<in> set urls))"
| "offered sys GoBack = (currentPage (app sys) = imageDisplay)"
| "offered sys (PromptSettled t ai) = (PromptCall t \<in> set (pending sys))"
| "offered sys (ImageSettled p ai) = (ImageCall p \<in> set (pending sys))"

fun settle :: "event \<Rightarrow> call list \<Rightarrow> call list" where
  "settle (PromptSettled t ai) cs = remove1 (PromptCall t) cs"
| "settle (ImageSettled p ai) cs = remove1 (ImageCall p) cs"
| "settle ev cs = cs"

definition step :: "system \<Rightarrow> event \<Rightarrow> system" where
  "step sys ev =
     (case fire (app sys) ev of
        (s, started) \<Rightarrow> \<lparr>app = s, pending = settle ev (pending sys) @ started\<rparr>)"

text \<open>A run is a sequence of events each of which is offered when it occurs.\<close>

fun run :: "system \<Rightarrow> event list \<Rightarrow> system option" where
  "run sys [] = Some sys"
| "run sys (ev # evs) = (if offered sys ev then run (step sys ev) evs else None)"

inductive reachable :: "system \<Rightarrow> bool" where
  at_start: "reachable initialSystem"
| after_event: "reachable sys \<Longrightarrow> offered sys ev \<Longrightarrow> reachable (step sys ev)"


section \<open>Invariant of the calls in flight\<close>

fun isPromptCall :: "call \<Rightarrow> bool" where
  "isPromptCall (PromptCall t) = True"
| "isPromptCall (ImageCall p) = False"

text \<open>
  At most one prompt call is in flight, and while it is, the prompt page shows the
  loading state.
\<close>

definition onePromptCall :: "system \<Rightarrow> bool" where
  "onePromptCall sys =
     (filter isPromptCall (pending sys) = [] \<or>
      (promptApiState (app sys) = LOADING \<and> currentPage (app sys) = promptInput \<and>
       length (filter isPromptCall (pending sys)) = 1))"

section \<open>Environments and runs of the examples\<close>

definition answers :: "'r \<Rightarrow> js_string \<Rightarrow> 'r outcome" where
  "answers r request = Fulfilled r"

definition refuses :: "js_string \<Rightarrow> js_string \<Rightarrow> 'r outcome" where
  "refuses m request = Rejected m"

text \<open>An image model that answers every request with one image, whose payload is the request.\<close>

definition echoes :: "js_string \<Rightarrow> image_response outcome" where
  "echoes request =
     Fulfilled [\<lparr>inlineData = Some \<lparr>data = request, mimeType = Some (utf16 ''image/png'')\<rparr>\<rparr>]"

text \<open>An image model that draws the first style of a prompt and rejects everything else.\<close>

definition comicOnly :: "js_string \<Rightarrow> js_string \<Rightarrow> image_response outcome" where
  "comicOnly prompt request =
     (if request = prompt1 prompt then echoes request else Rejected (utf16 ''quota''))"

abbreviation cat :: js_string where
  "cat \<equiv> utf16 ''cat''"

abbreviation a_cat :: js_string where
  "a_cat \<equiv> utf16 ''a cat''"

abbreviation comic_cat :: js_string where
  "comic_cat \<equiv> utf16 ''data:image/png;base64,a cat, classic comic book style, bold outlines''"

abbreviation doodle_cat :: js_string where
  "doodle_cat \<equiv>
     utf16 ''data:image/png;base64,a cat, playful doodle art style, slightly simplified lines''"

abbreviation dog :: js_string where
  "dog \<equiv> utf16 ''dog''"

abbreviation a_dog :: js_string where
  "a_dog \<equiv> utf16 ''a dog''"

abbreviation submitted :: "event list" where
  "submitted \<equiv> [EditTranscript cat, SubmitPrompt]"

abbreviation refined :: "event list" where
  "refined \<equiv> submitted @ [PromptSettled cat (answers (Some (utf16 '' a cat '')))]"

abbreviation drawn :: "event list" where
  "drawn \<equiv> refined @ [ImageSettled a_cat echoes]"

abbreviation promptLoading :: system where
  "promptLoading \<equiv>
     \<lparr>app = \<lparr>transcript = cat, generatedPrompt = [], imageUrls = None, selectedImageUrls = [],
             promptApiState = LOADING, imageApiState = IDLE, error = None,
             currentPage = promptInput\<rparr>,
      pending = [PromptCall cat]\<rparr>"

abbreviation imagesLoading :: system where
  "imagesLoading \<equiv>
     \<lparr>app = \<lparr>transcript = cat, generatedPrompt = a_cat, imageUrls = None,
             selectedImageUrls = [], promptApiState = SUCCESS, imageApiState = LOADING,
             error = None, currentPage = imageDisplay\<rparr>,
      pending = [ImageCall a_cat]\<rparr>"

abbreviation imagesShown :: "js_string list \<Rightarrow> system" where
  "imagesShown selection \<equiv>
     \<lparr>app = \<lparr>transcript = cat, generatedPrompt = a_cat,
             imageUrls = Some [comic_cat, doodle_cat], selectedImageUrls = selection,
             promptApiState = SUCCESS, imageApiState = SUCCESS, error = None,
             currentPage = imageDisplay\<rparr>,
      pending = []\<rparr>"

abbreviation wentBack ::
    "js_string list option \<Rightarrow> ApiState \<Rightarrow> js_string option \<Rightarrow> call list \<Rightarrow> system" where
  "wentBack images status message calls \<equiv>
     \<lparr>app = \<lparr>transcript = cat, generatedPrompt = a_cat, imageUrls = images,
             selectedImageUrls = [], promptApiState = SUCCESS, imageApiState = status,
             error = message, currentPage = promptInput\<rparr>,
      pending = calls\<rparr>"

abbreviation secondPrompt ::
    "js_string list option \<Rightarrow> ApiState \<Rightarrow> call list \<Rightarrow> system" where
  "secondPrompt images status calls \<equiv>
     \<lparr>app = \<lparr>transcript = dog, generatedPrompt = a_dog, imageUrls = images,
             selectedImageUrls = [], promptApiState = SUCCESS, imageApiState = status,
             error = None, currentPage = imageDisplay\<rparr>,
      pending = calls\<rparr>"

section \<open>Each event, with the effect that follows it\<close>

lemma fire_EditTranscript: "fire s (EditTranscript t) = (s\<lparr>transcript := t\<rparr>, [])"
  by (simp add: fire_def useEffect_def deps_def)

lemma fire_ToggleSelection:
  "fire s (ToggleSelection url) = (handleToggleImageSelection url s, [])"
  by (simp add: fire_def useEffect_def deps_def handleToggleImageSelection_def)

lemma fire_GoBack: "fire s GoBack = (handleBackToPromptInput s, [])"
  by (simp add: fire_def useEffect_def deps_def handleBackToPromptInput_def
      handleGenerateImage_def)

lemma fire_SubmitPrompt: "fire s SubmitPrompt = handleGeneratePrompt s"
  by (simp add: fire_def useEffect_def deps_def handleGeneratePrompt_def
      handleGenerateImage_def Let_def)

lemma fire_ImageSettled:
  "fire s (ImageSettled p ai) =
     (handleGenerateImage_settled (generateColoringBookImage ai p) s, [])"
  by (simp add: fire_def useEffect_def deps_def handleGenerateImage_settled_def
      split: sum.splits)

lemma fire_PromptSettled_Inl:
  "generateColoringBookPrompt ai t = Inl m \<Longrightarrow>
   fire s (PromptSettled t ai) =
     (s\<lparr>error := Some (utf16 ''Failed to generate prompt: '' @ m),
        promptApiState := ERROR, generatedPrompt := []\<rparr>, [])"
  by (simp add: fire_def useEffect_def deps_def handleGeneratePrompt_settled_def
      handleGenerateImage_def)

lemma generateColoringBookPrompt_nonempty:
  "generateColoringBookPrompt ai t = Inr p \<Longrightarrow> p \<noteq> []"
  by (auto simp: generateColoringBookPrompt_def split: outcome.splits option.splits if_splits)

lemma fire_PromptSettled_Inr:
  "generateColoringBookPrompt ai t = Inr p \<Longrightarrow> promptApiState s = LOADING \<Longrightarrow>
   fire s (PromptSettled t ai) =
     (s\<lparr>generatedPrompt := p, promptApiState := SUCCESS, currentPage := imageDisplay,
        error := None, imageApiState := LOADING, imageUrls := None,
        selectedImageUrls := []\<rparr>, [ImageCall p])"
  by (frule generateColoringBookPrompt_nonempty)
     (simp add: fire_def useEffect_def deps_def handleGeneratePrompt_settled_def
      handleGenerateImage_def)

lemma fire_started:
  "snd (fire s ev) = [] \<or>
   (\<exists>t. ev = SubmitPrompt \<and> snd (fire s ev) = [PromptCall t]) \<or>
   (\<exists>t ai p. ev = PromptSettled t ai \<and> generateColoringBookPrompt ai t = Inr p \<and>
       snd (fire s ev) = [ImageCall p] \<and> promptApiState (fst (fire s ev)) = SUCCESS \<and>
       currentPage (fst (fire s ev)) = imageDisplay \<and>
       imageApiState (fst (fire s ev)) = LOADING)"
proof (cases ev)
  case (PromptSettled t ai)
  then show ?thesis
    by (cases "generateColoringBookPrompt ai t")
       (auto simp: fire_def useEffect_def deps_def handleGeneratePrompt_settled_def
          handleGenerateImage_def split: if_splits)
qed (auto simp: fire_EditTranscript fire_SubmitPrompt fire_ToggleSelection
      fire_GoBack fire_ImageSettled handleGeneratePrompt_def Let_def)

lemma app_step: "app (step sys ev) = fst (fire (app sys) ev)"
  by (simp add: step_def split: prod.splits)

lemma pending_step: "pending (step sys ev) = settle ev (pending sys) @ snd (fire (app sys) ev)"
  by (simp add: step_def split: prod.splits)

lemma image_call_stays_pending:
  assumes "ImageCall p \<in> set (pending sys)" and "\<forall>ai. ev \<noteq> ImageSettled p ai"
  shows "ImageCall p \<in> set (pending (step sys ev))"
  using assms by (cases ev) (auto simp: pending_step)


lemma filter_single_remove1:
  assumes "length (filter P cs) = 1" and "c \<in> set cs" and "P c"
  shows "filter P (remove1 c cs) = []"
proof -
  from assms(1) obtain d where d: "filter P cs = [d]"
    by (cases "filter P cs") auto
  from assms(2,3) have "c \<in> set (filter P cs)" by simp
  with d have "d = c" by simp
  with d show ?thesis by (simp add: filter_remove1)
qed

lemma prompt_call_filtered:
  "PromptCall t \<in> set cs \<Longrightarrow> filter isPromptCall cs \<noteq> []"
  by (induction cs) auto

lemma onePromptCall_step:
  assumes "onePromptCall sys" and "offered sys ev"
  shows "onePromptCall (step sys ev)"
proof (cases ev)
  case (EditTranscript t)
  with assms show ?thesis
    by (simp add: onePromptCall_def app_step pending_step fire_EditTranscript)
next
  case SubmitPrompt
  with assms show ?thesis
    by (auto simp: onePromptCall_def app_step pending_step fire_SubmitPrompt
        handleGeneratePrompt_def Let_def)
next
  case (ToggleSelection u)
  with assms show ?thesis
    by (simp add: onePromptCall_def app_step pending_step fire_ToggleSelection
        handleToggleImageSelection_def)
next
  case GoBack
  with assms show ?thesis
    by (auto simp: onePromptCall_def app_step pending_step fire_GoBack
        handleBackToPromptInput_def)
next
  case (PromptSettled t ai)
  with assms have "PromptCall t \<in> set (pending sys)" by simp
  moreover from this have "filter isPromptCall (pending sys) \<noteq> []"
    by (rule prompt_call_filtered)
  with assms(1) have "length (filter isPromptCall (pending sys)) = 1"
    by (simp add: onePromptCall_def)
  ultimately have "filter isPromptCall (remove1 (PromptCall t) (pending sys)) = []"
    by (simp add: filter_single_remove1)
  moreover have "filter isPromptCall (snd (fire (app sys) ev)) = []"
    using fire_started [of "app sys" ev] PromptSettled by auto
  ultimately show ?thesis
    using PromptSettled by (simp add: onePromptCall_def pending_step)
next
  case (ImageSettled p ai)
  have "filter isPromptCall (remove1 (ImageCall p) (pending sys)) =
        filter isPromptCall (pending sys)"
    by (simp add: filter_remove1 remove1_idem)
  with assms ImageSettled show ?thesis
    by (cases "generateColoringBookImage ai p")
       (auto simp: onePromptCall_def app_step pending_step fire_ImageSettled
          handleGenerateImage_settled_def)
qed

lemma reachable_onePromptCall: "reachable sys \<Longrightarrow> onePromptCall sys"
proof (induction rule: reachable.induct)
  case at_start
  show ?case by (simp add: onePromptCall_def initialSystem_def)
next
  case (after_event sys ev)
  then show ?case by (simp add: onePromptCall_step)
qed

lemma prompt_call_pending:
  assumes "reachable sys" and "PromptCall t \<in> set (pending sys)"
  shows "promptApiState (app sys) = LOADING \<and> currentPage (app sys) = promptInput"
proof -
  from assms(2) have "filter isPromptCall (pending sys) \<noteq> []"
    by (rule prompt_call_filtered)
  with reachable_onePromptCall [OF assms(1)] show ?thesis
    by (simp add: onePromptCall_def)
qed

lemma fire_imageApiState_LOADING:
  assumes "imageApiState s \<noteq> LOADING" and "imageApiState (fst (fire s ev)) = LOADING"
  shows "promptApiState (fst (fire s ev)) = SUCCESS \<and> currentPage (fst (fire s ev)) = imageDisplay"
proof (cases ev)
  case (PromptSettled t ai)
  then show ?thesis
    using assms
    by (cases "generateColoringBookPrompt ai t")
       (auto simp: fire_def useEffect_def deps_def handleGeneratePrompt_settled_def
          handleGenerateImage_def split: if_splits)
next
  case (ImageSettled p ai)
  then show ?thesis
    using assms
    by (cases "generateColoringBookImage ai p")
       (auto simp: fire_ImageSettled handleGenerateImage_settled_def)
qed (use assms in \<open>auto simp: fire_EditTranscript fire_SubmitPrompt fire_ToggleSelection
      fire_GoBack handleGeneratePrompt_def handleToggleImageSelection_def
      handleBackToPromptInput_def Let_def split: if_splits\<close>)

lemma fire_distinct:
  assumes "distinct (selectedImageUrls s)"
  shows "distinct (selectedImageUrls (fst (fire s ev)))"
proof (cases ev)
  case (PromptSettled t ai)
  with assms show ?thesis
    by (cases "generateColoringBookPrompt ai t")
       (auto simp: fire_def useEffect_def deps_def handleGeneratePrompt_settled_def
          handleGenerateImage_def split: if_splits)
next
  case (ImageSettled p ai)
  with assms show ?thesis
    by (cases "generateColoringBookImage ai p")
       (auto simp: fire_ImageSettled handleGenerateImage_settled_def)
qed (use assms in \<open>auto simp: fire_EditTranscript fire_SubmitPrompt fire_ToggleSelection
      fire_GoBack handleGeneratePrompt_def handleToggleImageSelection_def
      handleBackToPromptInput_def Let_def\<close>)

lemma run_reachable: "reachable sys \<Longrightarrow> run sys evs = Some sys' \<Longrightarrow> reachable sys'"
  by (induction evs arbitrary: sys) (auto split: if_splits intro: reachable.after_event)

lemmas examples =
  step_def fire_def useEffect_def deps_def handleGeneratePrompt_def
  handleGeneratePrompt_settled_def handleBackToPromptInput_def handleGenerateImage_def
  handleGenerateImage_settled_def handleToggleImageSelection_def
  generateColoringBookPrompt_def generateColoringBookImage_def prompt1_def prompt2_def
  showImages_def initialSystem_def initialApp_def trim_def isWhiteSpace_def utf16_def
  answers_def refuses_def echoes_def comicOnly_def Let_def

lemma fire_selected:
  "case ev of
     ToggleSelection u \<Rightarrow>
       selectedImageUrls (fst (fire s ev)) =
         (if u \<in> set (selectedImageUrls s)
          then filter (\<lambda>v. v \<noteq> u) (selectedImageUrls s)
          else selectedImageUrls s @ [u])
   | _ \<Rightarrow>
       selectedImageUrls (fst (fire s ev)) = [] \<or>
       selectedImageUrls (fst (fire s ev)) = selectedImageUrls s"
proof (cases ev)
  case (PromptSettled t ai)
  then show ?thesis
    by (cases "generateColoringBookPrompt ai t")
       (auto simp: fire_def useEffect_def deps_def handleGeneratePrompt_settled_def
          handleGenerateImage_def split: if_splits)
next
  case (ImageSettled p ai)
  then show ?thesis
    by (cases "generateColoringBookImage ai p")
       (auto simp: fire_ImageSettled handleGenerateImage_settled_def)
qed (auto simp: fire_EditTranscript fire_SubmitPrompt fire_ToggleSelection
      fire_GoBack handleGeneratePrompt_def handleToggleImageSelection_def
      handleBackToPromptInput_def Let_def)

lemma filter_absent: "x \<notin> set xs \<Longrightarrow> filter (\<lambda>y. y \<noteq> x) xs = xs"
  by (induction xs) auto

lemma toggle_twice:
  "selectedImageUrls (fst (fire (fst (fire s (ToggleSelection x))) (ToggleSelection x))) =
     (if x \<in> set (selectedImageUrls s)
      then filter (\<lambda>y. y \<noteq> x) (selectedImageUrls s) @ [x]
      else selectedImageUrls s)"
  by (simp add: fire_ToggleSelection handleToggleImageSelection_def filter_absent)

lemma filter_out_last:
  assumes "distinct xs" and "xs \<noteq> []"
  shows "filter (\<lambda>y. y \<noteq> last xs) xs = butlast xs"
proof -
  from assms(2) have xs: "xs = butlast xs @ [last xs]"
    by simp
  with assms(1) have "distinct (butlast xs @ [last xs])"
    by simp
  then have "last xs \<notin> set (butlast xs)"
    by simp
  then have "filter (\<lambda>y. y \<noteq> last xs) (butlast xs) = butlast xs"
    by (rule filter_absent)
  then have "filter (\<lambda>y. y \<noteq> last xs) (butlast xs @ [last xs]) = butlast xs"
    by simp
  with xs show ?thesis
    by simp
qed

section \<open>The runs of the examples\<close>

lemma run_submitted: "run initialSystem submitted = Some promptLoading"
  by (simp add: examples)

lemma run_refined: "run initialSystem refined = Some imagesLoading"
  by (simp add: examples)

lemma run_drawn: "run initialSystem drawn = Some (imagesShown [])"
  by (simp add: examples)

section \<open>Claims\<close>

text \<open>
  C2. For every transcript that trims to the empty string, \<open>SubmitPrompt\<close> leaves the
  screen where it is (the prompt screen stays the prompt screen), sets the prompt status to
  \<open>ERROR\<close> with an error message, and starts no call: neither the prompt client nor the
  image client is invoked.
\<close>

theorem blank_transcript_is_refused_locally:
  assumes "trim (transcript s) = []"
  shows "currentPage (fst (fire s SubmitPrompt)) = currentPage s \<and>
         promptApiState (fst (fire s SubmitPrompt)) = ERROR \<and>
         error (fst (fire s SubmitPrompt)) =
           Some (utf16 ''Please enter an idea to generate a prompt.'') \<and>
         snd (fire s SubmitPrompt) = []"
  using assms by (simp add: fire_SubmitPrompt handleGeneratePrompt_def Let_def)

theorem blank_transcript_is_refused_locally_witness:
  "trim (transcript (initialApp\<lparr>transcript := [0x20, 0x0A, 0x3000]\<rparr>)) = [] \<and>
   currentPage (fst (fire (initialApp\<lparr>transcript := [0x20, 0x0A, 0x3000]\<rparr>) SubmitPrompt))
     = promptInput \<and>
   promptApiState (fst (fire (initialApp\<lparr>transcript := [0x20, 0x0A, 0x3000]\<rparr>) SubmitPrompt))
     = ERROR \<and>
   error (fst (fire (initialApp\<lparr>transcript := [0x20, 0x0A, 0x3000]\<rparr>) SubmitPrompt))
     = Some (utf16 ''Please enter an idea to generate a prompt.'') \<and>
   snd (fire (initialApp\<lparr>transcript := [0x20, 0x0A, 0x3000]\<rparr>) SubmitPrompt) = []"
proof -
  have blank: "trim (transcript (initialApp\<lparr>transcript := [0x20, 0x0A, 0x3000]\<rparr>)) = []"
    by (simp add: trim_def isWhiteSpace_def)
  show ?thesis
    using blank blank_transcript_is_refused_locally [OF blank]
    by (simp add: initialApp_def)
qed

text \<open>
  C6. \<open>GoBack\<close>, issued on the image screen, sets the screen to the prompt screen, the
  images to absent, the image status to \<open>IDLE\<close> and the selection to empty; the
  transcript, the prompt status and the refined prompt stay as they were (and so do the
  error message and the calls in flight).
\<close>

theorem go_back_resets_images_only:
  assumes "offered sys GoBack"
  shows "currentPage (app (step sys GoBack)) = promptInput \<and>
         imageUrls (app (step sys GoBack)) = None \<and>
         imageApiState (app (step sys GoBack)) = IDLE \<and>
         selectedImageUrls (app (step sys GoBack)) = [] \<and>
         transcript (app (step sys GoBack)) = transcript (app sys) \<and>
         promptApiState (app (step sys GoBack)) = promptApiState (app sys) \<and>
         generatedPrompt (app (step sys GoBack)) = generatedPrompt (app sys) \<and>
         error (app (step sys GoBack)) = error (app sys) \<and>
         pending (step sys GoBack) = pending sys"
  by (simp add: app_step pending_step fire_GoBack handleBackToPromptInput_def)

theorem go_back_resets_images_only_witness:
  "run initialSystem (drawn @ [ToggleSelection comic_cat]) = Some (imagesShown [comic_cat]) \<and>
   offered (imagesShown [comic_cat]) GoBack \<and>
   step (imagesShown [comic_cat]) GoBack = wentBack None IDLE None []"
proof -
  have shown: "run initialSystem (drawn @ [ToggleSelection comic_cat]) =
      Some (imagesShown [comic_cat])"
    by (simp add: examples)
  have offer: "offered (imagesShown [comic_cat]) GoBack"
    by simp
  show ?thesis
    using shown offer go_back_resets_images_only [OF offer]
    by (simp add: examples)
qed

text \<open>
  C7. An image-generation attempt succeeds exactly when both requests do, the one for the
  comic style first and the one for the doodle style second, and then the images are the
  two extracted locators in that order. When the attempt fails, whichever request caused
  it, no image is stored: the images are absent and the image status is \<open>ERROR\<close>.
\<close>

theorem image_generation_is_all_or_nothing:
  "(\<forall>urls. generateColoringBookImage ai p = Inr urls \<longleftrightarrow>
      (\<exists>r1 r2 u1 u2.
          ai (p @ utf16 '', classic comic book style, bold outlines'') = Fulfilled r1 \<and>
          extractImageUrl r1 = Inr u1 \<and>
          ai (p @ utf16 '', playful doodle art style, slightly simplified lines'') = Fulfilled r2 \<and>
          extractImageUrl r2 = Inr u2 \<and> urls = [u1, u2])) \<and>
   (case generateColoringBookImage ai p of
      Inr urls \<Rightarrow>
        fire s (ImageSettled p ai) = (s\<lparr>imageUrls := Some urls, imageApiState := SUCCESS\<rparr>, [])
    | Inl m \<Rightarrow>
        imageUrls (fst (fire s (ImageSettled p ai))) = None \<and>
        imageApiState (fst (fire s (ImageSettled p ai))) = ERROR \<and>
        error (fst (fire s (ImageSettled p ai))) =
          Some (utf16 ''Failed to generate image: '' @ m) \<and>
        snd (fire s (ImageSettled p ai)) = [])"
proof (intro conjI allI)
  fix urls
  show "generateColoringBookImage ai p = Inr urls \<longleftrightarrow>
      (\<exists>r1 r2 u1 u2.
          ai (p @ utf16 '', classic comic book style, bold outlines'') = Fulfilled r1 \<and>
          extractImageUrl r1 = Inr u1 \<and>
          ai (p @ utf16 '', playful doodle art style, slightly simplified lines'') = Fulfilled r2 \<and>
          extractImageUrl r2 = Inr u2 \<and> urls = [u1, u2])"
    unfolding generateColoringBookImage_def prompt1_def prompt2_def
    by (auto split: outcome.splits sum.splits)
next
  show "case generateColoringBookImage ai p of
      Inr urls \<Rightarrow>
        fire s (ImageSettled p ai) = (s\<lparr>imageUrls := Some urls, imageApiState := SUCCESS\<rparr>, [])
    | Inl m \<Rightarrow>
        imageUrls (fst (fire s (ImageSettled p ai))) = None \<and>
        imageApiState (fst (fire s (ImageSettled p ai))) = ERROR \<and>
        error (fst (fire s (ImageSettled p ai))) =
          Some (utf16 ''Failed to generate image: '' @ m) \<and>
        snd (fire s (ImageSettled p ai)) = []"
    by (simp add: fire_ImageSettled handleGenerateImage_settled_def split: sum.splits)
qed

theorem image_generation_is_all_or_nothing_witness:
  "generateColoringBookImage echoes a_cat = Inr [comic_cat, doodle_cat] \<and>
   step imagesLoading (ImageSettled a_cat echoes) = imagesShown [] \<and>
   generateColoringBookImage (comicOnly a_cat) a_cat =
     Inl (utf16 ''Failed to generate image: quota'') \<and>
   step imagesLoading (ImageSettled a_cat (comicOnly a_cat)) =
     \<lparr>app = \<lparr>transcript = cat, generatedPrompt = a_cat, imageUrls = None,
             selectedImageUrls = [], promptApiState = SUCCESS, imageApiState = ERROR,
             error = Some (utf16 ''Failed to generate image: Failed to generate image: quota''),
             currentPage = imageDisplay\<rparr>,
      pending = []\<rparr>"
  using image_generation_is_all_or_nothing [of echoes a_cat "app imagesLoading"]
    image_generation_is_all_or_nothing [of "comicOnly a_cat" a_cat "app imagesLoading"]
  by (simp add: examples)

text \<open>
  C8. The image status moves to \<open>LOADING\<close>, and an image call is started, only in a step
  after which the prompt status is \<open>SUCCESS\<close> and the screen is the image screen. This
  holds in every state, reachable or not.
\<close>

theorem image_loading_needs_prompt_and_page:
  "(imageApiState (app sys) \<noteq> LOADING \<and> imageApiState (app (step sys ev)) = LOADING
      \<longrightarrow> promptApiState (app (step sys ev)) = SUCCESS \<and>
          currentPage (app (step sys ev)) = imageDisplay) \<and>
   (ImageCall p \<in> set (snd (fire (app sys) ev))
      \<longrightarrow> imageApiState (app (step sys ev)) = LOADING \<and>
          promptApiState (app (step sys ev)) = SUCCESS \<and>
          currentPage (app (step sys ev)) = imageDisplay)"
proof -
  have first: "imageApiState (app sys) \<noteq> LOADING \<and> imageApiState (app (step sys ev)) = LOADING
      \<longrightarrow> promptApiState (app (step sys ev)) = SUCCESS \<and>
          currentPage (app (step sys ev)) = imageDisplay"
    using fire_imageApiState_LOADING [of "app sys" ev] by (simp add: app_step)
  have second: "ImageCall p \<in> set (snd (fire (app sys) ev))
      \<longrightarrow> imageApiState (app (step sys ev)) = LOADING \<and>
          promptApiState (app (step sys ev)) = SUCCESS \<and>
          currentPage (app (step sys ev)) = imageDisplay"
    using fire_started [of "app sys" ev] by (auto simp: app_step)
  from first second show ?thesis by blast
qed

theorem image_loading_needs_prompt_and_page_witness:
  "imageApiState (app promptLoading) \<noteq> LOADING \<and>
   imageApiState (app (step promptLoading (PromptSettled cat (answers (Some a_cat))))) = LOADING \<and>
   ImageCall a_cat \<in> set (snd (fire (app promptLoading) (PromptSettled cat (answers (Some a_cat))))) \<and>
   promptApiState (app (step promptLoading (PromptSettled cat (answers (Some a_cat))))) = SUCCESS \<and>
   currentPage (app (step promptLoading (PromptSettled cat (answers (Some a_cat))))) = imageDisplay"
proof -
  have idle: "imageApiState (app promptLoading) \<noteq> LOADING"
    by simp
  have loading: "imageApiState (app (step promptLoading (PromptSettled cat (answers (Some a_cat)))))
      = LOADING"
    by (simp add: examples)
  have started: "ImageCall a_cat \<in>
      set (snd (fire (app promptLoading) (PromptSettled cat (answers (Some a_cat)))))"
    by (simp add: examples)
  show ?thesis
    using idle loading started
      image_loading_needs_prompt_and_page
        [of promptLoading "PromptSettled cat (answers (Some a_cat))" a_cat]
    by blast
qed

text \<open>
  C9. When a prompt call settles in a reachable state, the screen becomes the image screen
  if and only if the prompt status becomes \<open>SUCCESS\<close>: on success both happen and
  exactly one image call is started, for the refined prompt; on failure the status is
  \<open>ERROR\<close>, the screen stays the prompt screen and no call is started. No other event
  starts an image call, so a successful prompt has one image-generation attempt and no
  more.
\<close>

theorem one_image_attempt_per_successful_prompt:
  assumes "reachable sys" and "offered sys ev"
  shows "case ev of
      PromptSettled t ai \<Rightarrow>
        (currentPage (app (step sys ev)) = imageDisplay \<longleftrightarrow>
           promptApiState (app (step sys ev)) = SUCCESS) \<and>
        (case generateColoringBookPrompt ai t of
           Inr prompt \<Rightarrow>
             promptApiState (app (step sys ev)) = SUCCESS \<and>
             currentPage (app (step sys ev)) = imageDisplay \<and>
             snd (fire (app sys) ev) = [ImageCall prompt]
         | Inl m \<Rightarrow>
             promptApiState (app (step sys ev)) = ERROR \<and>
             currentPage (app (step sys ev)) = promptInput \<and>
             snd (fire (app sys) ev) = [])
    | _ \<Rightarrow> (\<forall>p. ImageCall p \<notin> set (snd (fire (app sys) ev)))"
proof (cases ev)
  case (PromptSettled t ai)
  with assms have loading:
      "promptApiState (app sys) = LOADING \<and> currentPage (app sys) = promptInput"
    by (simp add: prompt_call_pending)
  show ?thesis
  proof (cases "generateColoringBookPrompt ai t")
    case (Inl m)
    with PromptSettled loading show ?thesis
      by (simp add: app_step fire_PromptSettled_Inl)
  next
    case (Inr prompt)
    with PromptSettled loading show ?thesis
      by (simp add: app_step fire_PromptSettled_Inr)
  qed
qed (use fire_started [of "app sys" ev] in auto)

theorem one_image_attempt_per_successful_prompt_witness:
  "run initialSystem submitted = Some promptLoading \<and>
   offered promptLoading (PromptSettled cat (answers (Some (utf16 '' a cat '')))) \<and>
   generateColoringBookPrompt (answers (Some (utf16 '' a cat ''))) cat = Inr a_cat \<and>
   promptApiState (app (step promptLoading (PromptSettled cat (answers (Some (utf16 '' a cat ''))))))
     = SUCCESS \<and>
   currentPage (app (step promptLoading (PromptSettled cat (answers (Some (utf16 '' a cat ''))))))
     = imageDisplay \<and>
   snd (fire (app promptLoading) (PromptSettled cat (answers (Some (utf16 '' a cat '')))))
     = [ImageCall a_cat]"
proof -
  have reach: "reachable promptLoading"
    using reachable.at_start run_submitted by (rule run_reachable)
  have offer: "offered promptLoading (PromptSettled cat (answers (Some (utf16 '' a cat ''))))"
    by simp
  have refined: "generateColoringBookPrompt (answers (Some (utf16 '' a cat ''))) cat = Inr a_cat"
    by (simp add: examples)
  show ?thesis
    using run_submitted offer refined
      one_image_attempt_per_successful_prompt [OF reach offer]
    by simp
qed

text \<open>
  C10. In every reachable state the selection has no duplicate locator: a toggle removes
  the locator when it is selected and appends it only when it is not, and every other
  event leaves the selection as it is or empties it.
\<close>

theorem selection_has_no_duplicates:
  assumes "reachable sys"
  shows "distinct (selectedImageUrls (app sys)) \<and>
         (case ev of
            ToggleSelection u \<Rightarrow>
              selectedImageUrls (app (step sys ev)) =
                (if u \<in> set (selectedImageUrls (app sys))
                 then filter (\<lambda>v. v \<noteq> u) (selectedImageUrls (app sys))
                 else selectedImageUrls (app sys) @ [u])
          | _ \<Rightarrow>
              selectedImageUrls (app (step sys ev)) = [] \<or>
              selectedImageUrls (app (step sys ev)) = selectedImageUrls (app sys))"
proof
  from assms show "distinct (selectedImageUrls (app sys))"
  proof (induction rule: reachable.induct)
    case at_start
    show ?case by (simp add: initialSystem_def initialApp_def)
  next
    case (after_event sys ev)
    then show ?case by (simp add: app_step fire_distinct)
  qed
next
  show "case ev of
      ToggleSelection u \<Rightarrow>
        selectedImageUrls (app (step sys ev)) =
          (if u \<in> set (selectedImageUrls (app sys))
           then filter (\<lambda>v. v \<noteq> u) (selectedImageUrls (app sys))
           else selectedImageUrls (app sys) @ [u])
    | _ \<Rightarrow>
        selectedImageUrls (app (step sys ev)) = [] \<or>
        selectedImageUrls (app (step sys ev)) = selectedImageUrls (app sys)"
    unfolding app_step by (rule fire_selected)
qed

theorem selection_has_no_duplicates_witness:
  "run initialSystem (drawn @ [ToggleSelection comic_cat, ToggleSelection doodle_cat,
      ToggleSelection comic_cat, ToggleSelection comic_cat]) =
     Some (imagesShown [doodle_cat, comic_cat]) \<and>
   distinct (selectedImageUrls (app (imagesShown [doodle_cat, comic_cat])))"
proof -
  have ran: "run initialSystem (drawn @ [ToggleSelection comic_cat, ToggleSelection doodle_cat,
      ToggleSelection comic_cat, ToggleSelection comic_cat]) =
     Some (imagesShown [doodle_cat, comic_cat])"
    by (simp add: examples)
  have reach: "reachable (imagesShown [doodle_cat, comic_cat])"
    using reachable.at_start ran by (rule run_reachable)
  show ?thesis
    using ran selection_has_no_duplicates [OF reach, of GoBack] by blast
qed

text \<open>
  C1 (as stated: after \<open>GoBack\<close> the late result of an image call is discarded). It is
  not: the call that was in flight when the user went back settles on the prompt screen,
  and its images and status, or its error, are stored.
\<close>

theorem late_image_result_is_stored:
  "run initialSystem (refined @ [GoBack]) = Some (wentBack None IDLE None [ImageCall a_cat]) \<and>
   run initialSystem (refined @ [GoBack, ImageSettled a_cat echoes]) =
     Some (wentBack (Some [comic_cat, doodle_cat]) SUCCESS None []) \<and>
   run initialSystem (refined @ [GoBack, ImageSettled a_cat (refuses (utf16 ''quota''))]) =
     Some (wentBack None ERROR
       (Some (utf16 ''Failed to generate image: Failed to generate image: quota'')) [])"
  by (simp add: examples)

text \<open>
  C1 (amended). No event but its own settling takes an image call out of flight, so a
  call that is in flight when the user goes back stays in flight; and when it settles,
  its result is applied to the state of that moment, whichever screen is shown then: a
  success stores the returned locators and the status \<open>SUCCESS\<close>, a failure stores the
  status \<open>ERROR\<close> and the error message and leaves the images absent.
\<close>

theorem late_image_result_is_applied:
  "(ImageCall p \<in> set (pending sys) \<and> (\<forall>ai'. ev \<noteq> ImageSettled p ai')
      \<longrightarrow> ImageCall p \<in> set (pending (step sys ev)) \<and>
          offered (step sys ev) (ImageSettled p ai)) \<and>
   (case generateColoringBookImage ai p of
      Inr urls \<Rightarrow>
        imageUrls (app (step sys' (ImageSettled p ai))) = Some urls \<and>
        imageApiState (app (step sys' (ImageSettled p ai))) = SUCCESS
    | Inl m \<Rightarrow>
        imageUrls (app (step sys' (ImageSettled p ai))) = None \<and>
        imageApiState (app (step sys' (ImageSettled p ai))) = ERROR \<and>
        error (app (step sys' (ImageSettled p ai))) =
          Some (utf16 ''Failed to generate image: '' @ m))"
proof
  show "ImageCall p \<in> set (pending sys) \<and> (\<forall>ai'. ev \<noteq> ImageSettled p ai')
      \<longrightarrow> ImageCall p \<in> set (pending (step sys ev)) \<and>
          offered (step sys ev) (ImageSettled p ai)"
    by (simp add: image_call_stays_pending)
next
  show "case generateColoringBookImage ai p of
      Inr urls \<Rightarrow>
        imageUrls (app (step sys' (ImageSettled p ai))) = Some urls \<and>
        imageApiState (app (step sys' (ImageSettled p ai))) = SUCCESS
    | Inl m \<Rightarrow>
        imageUrls (app (step sys' (ImageSettled p ai))) = None \<and>
        imageApiState (app (step sys' (ImageSettled p ai))) = ERROR \<and>
        error (app (step sys' (ImageSettled p ai))) =
          Some (utf16 ''Failed to generate image: '' @ m)"
    unfolding app_step fire_ImageSettled
    by (simp add: handleGenerateImage_settled_def split: sum.splits)
qed

theorem late_image_result_is_applied_witness:
  "ImageCall a_cat \<in> set (pending imagesLoading) \<and>
   ImageCall a_cat \<in> set (pending (step imagesLoading GoBack)) \<and>
   run initialSystem
       (refined @ [GoBack, EditTranscript dog, SubmitPrompt,
                   PromptSettled dog (answers (Some a_dog))]) =
     Some (secondPrompt None LOADING [ImageCall a_cat, ImageCall a_dog]) \<and>
   generateColoringBookImage echoes a_cat = Inr [comic_cat, doodle_cat] \<and>
   step (secondPrompt None LOADING [ImageCall a_cat, ImageCall a_dog])
        (ImageSettled a_cat echoes) =
     secondPrompt (Some [comic_cat, doodle_cat]) SUCCESS [ImageCall a_dog]"
proof -
  have flying: "ImageCall a_cat \<in> set (pending imagesLoading)"
    by simp
  have other: "\<forall>ai'. GoBack \<noteq> ImageSettled a_cat ai'"
    by simp
  have ran: "run initialSystem
       (refined @ [GoBack, EditTranscript dog, SubmitPrompt,
                   PromptSettled dog (answers (Some a_dog))]) =
     Some (secondPrompt None LOADING [ImageCall a_cat, ImageCall a_dog])"
    by (simp add: examples)
  have drawn: "generateColoringBookImage echoes a_cat = Inr [comic_cat, doodle_cat]"
    by (simp add: examples)
  have stale: "step (secondPrompt None LOADING [ImageCall a_cat, ImageCall a_dog])
        (ImageSettled a_cat echoes) =
     secondPrompt (Some [comic_cat, doodle_cat]) SUCCESS [ImageCall a_dog]"
    using drawn
      late_image_result_is_applied
        [of a_cat imagesLoading GoBack echoes
            "secondPrompt None LOADING [ImageCall a_cat, ImageCall a_dog]"]
    by (simp add: examples)
  show ?thesis
    using flying other ran drawn stale
      late_image_result_is_applied
        [of a_cat imagesLoading GoBack echoes
            "secondPrompt None LOADING [ImageCall a_cat, ImageCall a_dog]"]
    by blast
qed





text \<open>
  C5 (as stated: toggling a locator twice in a row restores the selection, order
  included). With both images of the example selected, the comic one first, toggling the
  comic one twice leaves it behind the doodle one.
\<close>

theorem toggling_twice_reorders:
  "run initialSystem (drawn @ [ToggleSelection comic_cat, ToggleSelection doodle_cat]) =
     Some (imagesShown [comic_cat, doodle_cat]) \<and>
   imageApiState (app (imagesShown [comic_cat, doodle_cat])) = SUCCESS \<and>
   run (imagesShown [comic_cat, doodle_cat])
       [ToggleSelection comic_cat, ToggleSelection comic_cat] =
     Some (imagesShown [doodle_cat, comic_cat])"
  by (simp add: examples)

text \<open>
  C5 (amended). Toggling a locator twice in a row restores the selection as a set. A
  locator that was not selected is appended and removed again, which restores the
  sequence; a locator that was selected is removed and appended at the end, so in a
  selection without duplicates the sequence is restored exactly when that locator was
  the last one.
\<close>

theorem toggling_twice_restores_the_set:
  "set (selectedImageUrls (fst (fire (fst (fire s (ToggleSelection x))) (ToggleSelection x))))
     = set (selectedImageUrls s) \<and>
   (x \<notin> set (selectedImageUrls s) \<longrightarrow>
      selectedImageUrls (fst (fire (fst (fire s (ToggleSelection x))) (ToggleSelection x)))
        = selectedImageUrls s) \<and>
   (x \<in> set (selectedImageUrls s) \<longrightarrow>
      selectedImageUrls (fst (fire (fst (fire s (ToggleSelection x))) (ToggleSelection x)))
        = filter (\<lambda>y. y \<noteq> x) (selectedImageUrls s) @ [x]) \<and>
   (distinct (selectedImageUrls s) \<and> x \<in> set (selectedImageUrls s) \<longrightarrow>
      (selectedImageUrls (fst (fire (fst (fire s (ToggleSelection x))) (ToggleSelection x)))
         = selectedImageUrls s) = (last (selectedImageUrls s) = x))"
proof (intro conjI impI)
  show "set (selectedImageUrls (fst (fire (fst (fire s (ToggleSelection x))) (ToggleSelection x))))
     = set (selectedImageUrls s)"
    by (auto simp: toggle_twice)
next
  assume "x \<notin> set (selectedImageUrls s)"
  then show "selectedImageUrls (fst (fire (fst (fire s (ToggleSelection x))) (ToggleSelection x)))
        = selectedImageUrls s"
    by (simp add: toggle_twice)
next
  assume "x \<in> set (selectedImageUrls s)"
  then show "selectedImageUrls (fst (fire (fst (fire s (ToggleSelection x))) (ToggleSelection x)))
        = filter (\<lambda>y. y \<noteq> x) (selectedImageUrls s) @ [x]"
    by (simp add: toggle_twice)
next
  assume sel: "distinct (selectedImageUrls s) \<and> x \<in> set (selectedImageUrls s)"
  then have twice:
      "selectedImageUrls (fst (fire (fst (fire s (ToggleSelection x))) (ToggleSelection x)))
        = filter (\<lambda>y. y \<noteq> x) (selectedImageUrls s) @ [x]"
    by (simp add: toggle_twice)
  from sel have nonempty: "selectedImageUrls s \<noteq> []"
    by auto
  show "(selectedImageUrls (fst (fire (fst (fire s (ToggleSelection x))) (ToggleSelection x)))
         = selectedImageUrls s) = (last (selectedImageUrls s) = x)"
  proof
    assume "selectedImageUrls (fst (fire (fst (fire s (ToggleSelection x))) (ToggleSelection x)))
         = selectedImageUrls s"
    with twice have "selectedImageUrls s = filter (\<lambda>y. y \<noteq> x) (selectedImageUrls s) @ [x]"
      by simp
    then have "last (selectedImageUrls s) =
        last (filter (\<lambda>y. y \<noteq> x) (selectedImageUrls s) @ [x])"
      by simp
    then show "last (selectedImageUrls s) = x"
      by simp
  next
    assume "last (selectedImageUrls s) = x"
    with sel nonempty filter_out_last [of "selectedImageUrls s"]
    have "filter (\<lambda>y. y \<noteq> x) (selectedImageUrls s) @ [x] = selectedImageUrls s"
      by auto
    with twice
    show "selectedImageUrls (fst (fire (fst (fire s (ToggleSelection x))) (ToggleSelection x)))
         = selectedImageUrls s"
      by simp
  qed
qed

theorem toggling_twice_restores_the_set_witness:
  "distinct (selectedImageUrls (app (imagesShown [comic_cat, doodle_cat]))) \<and>
   comic_cat \<in> set (selectedImageUrls (app (imagesShown [comic_cat, doodle_cat]))) \<and>
   last (selectedImageUrls (app (imagesShown [comic_cat, doodle_cat]))) = doodle_cat \<and>
   selectedImageUrls
     (fst (fire (fst (fire (app (imagesShown [comic_cat, doodle_cat]))
        (ToggleSelection comic_cat))) (ToggleSelection comic_cat))) = [doodle_cat, comic_cat] \<and>
   selectedImageUrls
     (fst (fire (fst (fire (app (imagesShown [comic_cat, doodle_cat]))
        (ToggleSelection doodle_cat))) (ToggleSelection doodle_cat))) = [comic_cat, doodle_cat] \<and>
   selectedImageUrls
     (fst (fire (fst (fire (app (imagesShown [comic_cat, doodle_cat]))
        (ToggleSelection cat))) (ToggleSelection cat))) = [comic_cat, doodle_cat]"
  using toggling_twice_restores_the_set
      [of "app (imagesShown [comic_cat, doodle_cat])" comic_cat]
    toggling_twice_restores_the_set
      [of "app (imagesShown [comic_cat, doodle_cat])" doodle_cat]
    toggling_twice_restores_the_set
      [of "app (imagesShown [comic_cat, doodle_cat])" cat]
  by (simp add: utf16_def)

end
